theory Spec2Isabelle
  imports Complex_Main
begin

section \<open>Python values\<close>

text \<open>
  The client passes JSON payloads around as plain Python objects: what
  \<^verbatim>\<open>response.json()\<close> returns (a dict, a list, a string, a number, a boolean or
  \<^verbatim>\<open>None\<close>) and the dicts the client builds itself. A dict is the list of its items in
  insertion order, its keys being strings as in JSON. Strings are lists of 8-bit characters;
  the only operation of the client that looks at a character outside ASCII is
  \<^verbatim>\<open>str.upper()\<close>, whose result on such a string is a parameter of the environment.
\<close>

datatype pyval =
    PNone
  | PBool bool
  | PInt int
  | PFloat real
  | PStr string
  | PList "pyval list"
  | PDict "(string \<times> pyval) list"

text \<open>
  Exceptions, by class. Only the classes that the handlers of \<^verbatim>\<open>_make_request\<close> tell
  apart, and the ones that the operations on values raise, are distinguished.
  \<^item> \<open>HTTPError\<close>: \<^verbatim>\<open>requests.exceptions.HTTPError\<close>;
  \<^item> \<open>TransportException\<close>: any other \<^verbatim>\<open>requests.exceptions.RequestException\<close>
    (connection refused, timeout, DNS, TLS, ...) that is not a JSON decoding error;
  \<^item> \<open>RequestsJSONDecodeError\<close>: \<^verbatim>\<open>requests.exceptions.JSONDecodeError\<close>, the class
    that \<^verbatim>\<open>Response.json()\<close> raises since requests 2.27; it derives from both
    \<^verbatim>\<open>requests.exceptions.InvalidJSONError\<close> (a \<^verbatim>\<open>RequestException\<close>) and
    \<^verbatim>\<open>json.JSONDecodeError\<close>;
  \<^item> \<open>JSONDecodeError\<close>: a \<^verbatim>\<open>json.JSONDecodeError\<close> that is not a
    \<^verbatim>\<open>RequestException\<close> (what \<^verbatim>\<open>Response.json()\<close> raised before requests 2.27);
  \<^item> the builtin classes raised by operations on values, and \<open>OtherException\<close>.
\<close>

datatype exc_class =
    HTTPError
  | TransportException
  | RequestsJSONDecodeError
  | JSONDecodeError
  | TypeError
  | AttributeError
  | KeyError
  | ValueError
  | UnboundLocalError
  | OtherException

datatype exc = Exc exc_class string

fun is_HTTPError :: "exc_class \<Rightarrow> bool" where
  "is_HTTPError c = (c = HTTPError)"

fun is_RequestException :: "exc_class \<Rightarrow> bool" where
  "is_RequestException c = (c = HTTPError \<or> c = TransportException \<or> c = RequestsJSONDecodeError)"

fun is_JSONDecodeError :: "exc_class \<Rightarrow> bool" where
  "is_JSONDecodeError c = (c = JSONDecodeError \<or> c = RequestsJSONDecodeError)"

text \<open>Truth value of an object, as \<^verbatim>\<open>if x\<close>, \<^verbatim>\<open>not x\<close> and \<^verbatim>\<open>x and y\<close> test it.\<close>

fun truthy :: "pyval \<Rightarrow> bool" where
  "truthy PNone = False"
| "truthy (PBool b) = b"
| "truthy (PInt i) = (i \<noteq> 0)"
| "truthy (PFloat x) = (x \<noteq> 0)"
| "truthy (PStr s) = (s \<noteq> [])"
| "truthy (PList xs) = (xs \<noteq> [])"
| "truthy (PDict kvs) = (kvs \<noteq> [])"

text \<open>\<^verbatim>\<open>if not s\<close> for an optional string argument: \<^verbatim>\<open>None\<close> and \<^verbatim>\<open>""\<close> are false.\<close>

fun missing :: "string option \<Rightarrow> bool" where
  "missing None = True"
| "missing (Some s) = (s = [])"

fun is_substr :: "string \<Rightarrow> string \<Rightarrow> bool" where
  "is_substr p [] = (p = [])"
| "is_substr p (c # cs) = (take (length p) (c # cs) = p \<or> is_substr p cs)"

text \<open>
  \<^verbatim>\<open>key in obj\<close> for a string \<open>key\<close>: a key of a dict, an element of a list, a
  substring of a string; \<^verbatim>\<open>TypeError\<close> on an object that is not iterable.
\<close>

fun py_in :: "string \<Rightarrow> pyval \<Rightarrow> exc + bool" where
  "py_in k (PDict kvs) = Inr (k \<in> set (map fst kvs))"
| "py_in k (PList xs) = Inr (PStr k \<in> set xs)"
| "py_in k (PStr s) = Inr (is_substr k s)"
| "py_in k v = Inl (Exc TypeError ''argument is not iterable'')"

text \<open>\<^verbatim>\<open>obj.get(key, default)\<close>: only a dict has the method.\<close>

fun py_get :: "pyval \<Rightarrow> string \<Rightarrow> pyval \<Rightarrow> exc + pyval" where
  "py_get (PDict kvs) k dflt = Inr (case map_of kvs k of None \<Rightarrow> dflt | Some v \<Rightarrow> v)"
| "py_get v k dflt = Inl (Exc AttributeError ''object has no attribute get'')"

text \<open>\<^verbatim>\<open>obj[key]\<close> for a string \<open>key\<close>.\<close>

fun py_index :: "pyval \<Rightarrow> string \<Rightarrow> exc + pyval" where
  "py_index (PDict kvs) k =
     (case map_of kvs k of None \<Rightarrow> Inl (Exc KeyError k) | Some v \<Rightarrow> Inr v)"
| "py_index v k = Inl (Exc TypeError ''indices must be integers'')"

text \<open>
  Upper-casing of an ASCII character, the part of \<^verbatim>\<open>str.upper()\<close> that is fixed here:
  the letters a to z go to A to Z and every other ASCII character stays. A character is
  ASCII when its top bit is clear.
\<close>

definition upper_char :: "char \<Rightarrow> char" where
  "upper_char c =
     (case map_of (zip ''abcdefghijklmnopqrstuvwxyz'' ''ABCDEFGHIJKLMNOPQRSTUVWXYZ'') c of
        Some u \<Rightarrow> u
      | None \<Rightarrow> c)"

definition is_ascii :: "char \<Rightarrow> bool" where
  "is_ascii c = (\<not> digit7 c)"

text \<open>\<^verbatim>\<open>str.rstrip(c)\<close> and \<^verbatim>\<open>str.lstrip(c)\<close> for one character \<open>c\<close>.\<close>

definition lstrip :: "char \<Rightarrow> string \<Rightarrow> string" where
  "lstrip c s = dropWhile (\<lambda>x. x = c) s"

definition rstrip :: "char \<Rightarrow> string \<Rightarrow> string" where
  "rstrip c s = rev (dropWhile (\<lambda>x. x = c) (rev s))"


section \<open>The HTTP transport and the effects of the client\<close>

text \<open>
  The \<^verbatim>\<open>requests\<close> library is the client's collaborator. A request is what the client
  hands to \<^verbatim>\<open>requests.get/post/patch/delete\<close>; a response is what the client reads
  from the object it gets back: \<^verbatim>\<open>status_code\<close>, \<^verbatim>\<open>content\<close>, \<^verbatim>\<open>text\<close>,
  the outcome of \<^verbatim>\<open>json()\<close> (a value or the exception raised) and the message of
  the \<^verbatim>\<open>HTTPError\<close> that \<^verbatim>\<open>raise_for_status()\<close> raises on a 4xx or 5xx status.
\<close>

record request =
  q_func :: string
  q_url :: string
  q_headers :: "(string \<times> string) list"
  q_json :: "pyval option"
  q_params :: pyval

record response =
  r_status_code :: int
  r_content :: string
  r_text :: string
  r_json :: "exc + pyval"
  r_error_msg :: string

text \<open>
  The environment: \<open>net k q\<close> is what the network answers to the \<open>k\<close>-th call of the run
  (counted from 0) when it carries the request \<open>q\<close>: a response or a raised exception;
  \<open>fmt\<close> is the text of a value inside an f-string; \<open>upper_unicode\<close> is
  \<^verbatim>\<open>str.upper()\<close> on a string that has a character outside ASCII, where Python follows
  the Unicode case mappings (the long s becomes \<^verbatim>\<open>S\<close>, so a method written with it can
  upper-case to \<^verbatim>\<open>POST\<close>). The observable effects of a run are logged in order: the
  network calls and the calls of \<^verbatim>\<open>time.sleep\<close>. Progress printing is not modelled.
\<close>

record env =
  net :: "nat \<Rightarrow> request \<Rightarrow> exc + response"
  fmt :: "pyval \<Rightarrow> string"
  upper_unicode :: "string \<Rightarrow> string"

text \<open>
  \<^verbatim>\<open>s.upper()\<close>: on an ASCII string, character by character; on any other string,
  what the Unicode mappings of the environment give.
\<close>

definition str_upper :: "env \<Rightarrow> string \<Rightarrow> string" where
  "str_upper env s = (if list_all is_ascii s then map upper_char s else upper_unicode env s)"

datatype event = Request request | Sleep int

fun is_Request :: "event \<Rightarrow> bool" where
  "is_Request (Request q) = True"
| "is_Request (Sleep s) = False"

definition n_requests :: "event list \<Rightarrow> nat" where
  "n_requests tr = length (filter is_Request tr)"

definition send :: "env \<Rightarrow> request \<Rightarrow> event list \<Rightarrow> (exc + response) \<times> event list" where
  "send env q tr = (net env (n_requests tr) q, tr @ [Request q])"

text \<open>\<^verbatim>\<open>time.sleep(secs)\<close> raises \<^verbatim>\<open>ValueError\<close> on a negative length.\<close>

definition sleep :: "int \<Rightarrow> event list \<Rightarrow> (exc + unit) \<times> event list" where
  "sleep secs tr =
     (if secs < 0 then (Inl (Exc ValueError ''sleep length must be non-negative''), tr)
      else (Inr (), tr @ [Sleep secs]))"


section \<open>\<^verbatim>\<open>api_client._make_request\<close>\<close>

text \<open>Lines 37 to 40: the rest of the \<^verbatim>\<open>try\<close> body once the response is there.\<close>

definition read_response :: "response \<Rightarrow> exc + pyval" where
  "read_response r =
     (if 400 \<le> r_status_code r \<and> r_status_code r < 600
        then Inl (Exc HTTPError (r_error_msg r))
      else if r_content r \<noteq> [] then r_json r
      else Inr PNone)"

text \<open>
  Lines 42 to 52: the \<^verbatim>\<open>except\<close> clauses, tried in the order of the source. The first
  argument is the local variable \<^verbatim>\<open>response\<close>, unbound when the call itself raised.
  An exception that no clause catches propagates.
\<close>

fun handle_exc :: "response option \<Rightarrow> exc \<Rightarrow> exc + pyval" where
  "handle_exc ro (Exc c m) =
     (if is_HTTPError c then
        (case ro of
           None \<Rightarrow> Inl (Exc UnboundLocalError ''response'')
         | Some r \<Rightarrow>
             (case r_json r of
                Inr v \<Rightarrow>
                  Inr (PDict [(''error'', PStr ''HTTPError''),
                              (''status_code'', PInt (r_status_code r)),
                              (''message'', PStr m), (''details'', v)])
              | Inl (Exc c' m') \<Rightarrow>
                  if is_JSONDecodeError c' then
                    Inr (PDict [(''error'', PStr ''HTTPError''),
                                (''status_code'', PInt (r_status_code r)),
                                (''message'', PStr m), (''details'', PStr (r_text r))])
                  else Inl (Exc c' m')))
      else if is_RequestException c then
        Inr (PDict [(''error'', PStr ''RequestException''), (''message'', PStr m)])
      else if is_JSONDecodeError c then
        Inr (PDict [(''error'', PStr ''JSONDecodeError''), (''message'', PStr m),
                    (''raw_response'',
                       PStr (case ro of Some r \<Rightarrow> r_text r | None \<Rightarrow> ''N/A''))])
      else Inl (Exc c m))"

text \<open>
  Lines 37 to 52 together: what \<^verbatim>\<open>_make_request\<close> makes of the outcome of the network
  call, a response or an exception raised by the call.
\<close>

definition answer :: "exc + response \<Rightarrow> exc + pyval" where
  "answer out =
     (case out of
        Inl e \<Rightarrow> handle_exc None e
      | Inr r \<Rightarrow>
          (case read_response r of
             Inl e \<Rightarrow> handle_exc (Some r) e
           | Inr v \<Rightarrow> Inr v))"

text \<open>One network call inside the \<^verbatim>\<open>try\<close>, followed by lines 37 to 52.\<close>

definition perform :: "env \<Rightarrow> request \<Rightarrow> event list \<Rightarrow> (exc + pyval) \<times> event list" where
  "perform env q tr = (case send env q tr of (out, tr') \<Rightarrow> (answer out, tr'))"

definition make_headers :: "string \<Rightarrow> (string \<times> string) list" where
  "make_headers api_key =
     [(''Authorization'', ''Token '' @ api_key),
      (''Content-Type'', ''application/json''),
      (''Accept'', ''application/json'')]"

text \<open>
  \<^verbatim>\<open>_make_request(method, endpoint, data, params, api_key, base_url)\<close>. The result is
  the returned object, or the exception that leaves the function, together with the log.
\<close>

definition make_request ::
  "env \<Rightarrow> string \<Rightarrow> string \<Rightarrow> pyval \<Rightarrow> pyval \<Rightarrow> string option \<Rightarrow> string option \<Rightarrow>
   event list \<Rightarrow> (exc + pyval) \<times> event list" where
  "make_request env method endpoint data params api_key base_url tr =
     (if missing api_key \<or> missing base_url then
        (Inr (PDict [(''error'', PStr ''API_KEY and BASE_URL must be provided.'')]), tr)
      else
        (case (api_key, base_url) of
           (Some key, Some base) \<Rightarrow>
             (let url = rstrip CHR ''/'' base @ ''/'' @ lstrip CHR ''/'' endpoint;
                  headers = make_headers key
              in if str_upper env method = ''GET'' then
                   perform env \<lparr>q_func = ''get'', q_url = url, q_headers = headers,
                                q_json = None, q_params = params\<rparr> tr
                 else if str_upper env method = ''POST'' then
                   perform env \<lparr>q_func = ''post'', q_url = url, q_headers = headers,
                                q_json = Some data, q_params = params\<rparr> tr
                 else if str_upper env method = ''PATCH'' then
                   perform env \<lparr>q_func = ''patch'', q_url = url, q_headers = headers,
                                q_json = Some data, q_params = params\<rparr> tr
                 else if str_upper env method = ''DELETE'' then
                   perform env \<lparr>q_func = ''delete'', q_url = url, q_headers = headers,
                                q_json = None, q_params = params\<rparr> tr
                 else
                   (Inr (PDict [(''error'', PStr (''Unsupported HTTP method: '' @ method))]),
                    tr))
         | _ \<Rightarrow>
             (Inr (PDict [(''error'', PStr ''API_KEY and BASE_URL must be provided.'')]), tr)))"


section \<open>The analytics calls and the poll loop\<close>

definition run_building_analysis ::
  "env \<Rightarrow> pyval \<Rightarrow> pyval \<Rightarrow> pyval \<Rightarrow> string option \<Rightarrow> string option \<Rightarrow>
   event list \<Rightarrow> (exc + pyval) \<times> event list" where
  "run_building_analysis env building_id savings_target min_r_squared api_key base_url tr =
     make_request env ''POST'' (''/buildings/'' @ fmt env building_id @ ''/analytics/'')
       (PDict [(''savings_target'', savings_target),
               (''min_model_r_squared'', min_r_squared),
               (''benchmark_data_type'', PStr ''DEFAULT'')])
       PNone api_key base_url tr"

definition get_building_analysis_details ::
  "env \<Rightarrow> pyval \<Rightarrow> pyval \<Rightarrow> string option \<Rightarrow> string option \<Rightarrow> bool \<Rightarrow> bool \<Rightarrow>
   event list \<Rightarrow> (exc + pyval) \<times> event list" where
  "get_building_analysis_details env building_id building_analytics_id api_key base_url
       html_format units_ip tr =
     make_request env ''GET''
       (''/buildings/'' @ fmt env building_id @ ''/analytics/''
          @ fmt env building_analytics_id @ ''/'')
       PNone
       (PDict (if html_format then
                 (if units_ip then [(''format'', PStr ''html''), (''units'', PStr ''IP'')]
                  else [(''format'', PStr ''html'')])
               else []))
       api_key base_url tr"

text \<open>
  The request of a submission: what \<^verbatim>\<open>run_building_analysis\<close> hands to
  \<^verbatim>\<open>requests.post\<close>, with a key and a base URL.
\<close>

definition submit_request ::
  "env \<Rightarrow> pyval \<Rightarrow> pyval \<Rightarrow> pyval \<Rightarrow> string \<Rightarrow> string \<Rightarrow> request" where
  "submit_request env building_id savings_target min_r_squared key base =
     \<lparr>q_func = ''post'',
      q_url = rstrip CHR ''/'' base @ ''/'' @
              lstrip CHR ''/'' (''/buildings/'' @ fmt env building_id @ ''/analytics/''),
      q_headers = make_headers key,
      q_json = Some (PDict [(''savings_target'', savings_target),
                            (''min_model_r_squared'', min_r_squared),
                            (''benchmark_data_type'', PStr ''DEFAULT'')]),
      q_params = PNone\<rparr>"

text \<open>
  The request of a status query: what \<^verbatim>\<open>get_building_analysis_details\<close> hands to
  \<^verbatim>\<open>requests.get\<close> when called as the poll loop calls it, with a key and a base URL.
\<close>

definition status_request :: "env \<Rightarrow> pyval \<Rightarrow> pyval \<Rightarrow> string \<Rightarrow> string \<Rightarrow> request" where
  "status_request env building_id building_analytics_id key base =
     \<lparr>q_func = ''get'',
      q_url = rstrip CHR ''/'' base @ ''/'' @
              lstrip CHR ''/'' (''/buildings/'' @ fmt env building_id @ ''/analytics/''
                                 @ fmt env building_analytics_id @ ''/''),
      q_headers = make_headers key, q_json = None, q_params = PDict []\<rparr>"

text \<open>
  The four \<^verbatim>\<open>return\<close> statements of \<^verbatim>\<open>poll_for_building_analysis_completion\<close>,
  lines 154, 157, 162 and 172.
\<close>

datatype poll_exit = Complete | Failed | Unexpected | TimedOut

datatype 'a flow = Raise exc | Return 'a | Continue

text \<open>The \<^verbatim>\<open>else\<close> branch of the loop body, lines 164 to 168.\<close>

definition poll_error_branch ::
  "int \<Rightarrow> pyval \<Rightarrow> event list \<Rightarrow> (poll_exit \<times> pyval) flow \<times> event list" where
  "poll_error_branch secs details tr =
     (case (if truthy details then py_get details ''message'' (PStr ''Unknown error'')
            else Inr (PStr ''Initial call failed, no details.'')) of
        Inl e \<Rightarrow> (Raise e, tr)
      | Inr error_message \<Rightarrow>
          (case sleep secs tr of
             (Inl e, tr') \<Rightarrow> (Raise e, tr')
           | (Inr u, tr') \<Rightarrow> (Continue, tr')))"

text \<open>The loop body after the query, lines 149 to 168.\<close>

definition poll_body ::
  "int \<Rightarrow> pyval \<Rightarrow> event list \<Rightarrow> (poll_exit \<times> pyval) flow \<times> event list" where
  "poll_body secs details tr =
     (if \<not> truthy details then poll_error_branch secs details tr
      else
        (case py_in ''error'' details of
           Inl e \<Rightarrow> (Raise e, tr)
         | Inr True \<Rightarrow> poll_error_branch secs details tr
         | Inr False \<Rightarrow>
             (case py_get details ''generation_result'' PNone of
                Inl e \<Rightarrow> (Raise e, tr)
              | Inr generation_result \<Rightarrow>
                  if generation_result = PStr ''COMPLETE'' then (Return (Complete, details), tr)
                  else if generation_result = PStr ''FAILED'' then (Return (Failed, details), tr)
                  else if generation_result = PStr ''IN_PROGRESS'' then
                    (case sleep secs tr of
                       (Inl e, tr') \<Rightarrow> (Raise e, tr')
                     | (Inr u, tr') \<Rightarrow> (Continue, tr'))
                  else (Return (Unexpected, details), tr))))"

text \<open>
  The \<^verbatim>\<open>for attempt in range(max_attempts)\<close> loop with the number of attempts left,
  and line 172 after it. The argument \<open>prev\<close> is the local variable \<^verbatim>\<open>details\<close>:
  \<open>None\<close> while it is unbound.
\<close>

fun poll_loop ::
  "env \<Rightarrow> pyval \<Rightarrow> pyval \<Rightarrow> string option \<Rightarrow> string option \<Rightarrow> int \<Rightarrow> nat \<Rightarrow>
   pyval option \<Rightarrow> event list \<Rightarrow> (exc + poll_exit \<times> pyval) \<times> event list" where
  "poll_loop env building_id building_analytics_id api_key base_url secs 0 prev tr =
     (Inr (TimedOut,
           (case prev of
              Some details \<Rightarrow> details
            | None \<Rightarrow> PDict [(''error'', PStr ''Polling failed to get details.'')])),
      tr)"
| "poll_loop env building_id building_analytics_id api_key base_url secs (Suc n) prev tr =
     (case get_building_analysis_details env building_id building_analytics_id api_key base_url
             False False tr of
        (Inl e, tr1) \<Rightarrow> (Inl e, tr1)
      | (Inr details, tr1) \<Rightarrow>
          (case poll_body secs details tr1 of
             (Raise e, tr2) \<Rightarrow> (Inl e, tr2)
           | (Return res, tr2) \<Rightarrow> (Inr res, tr2)
           | (Continue, tr2) \<Rightarrow>
               poll_loop env building_id building_analytics_id api_key base_url secs n
                 (Some details) tr2))"

definition poll_for_building_analysis_completion ::
  "env \<Rightarrow> pyval \<Rightarrow> pyval \<Rightarrow> string option \<Rightarrow> string option \<Rightarrow> int \<Rightarrow> int \<Rightarrow>
   event list \<Rightarrow> (exc + poll_exit \<times> pyval) \<times> event list" where
  "poll_for_building_analysis_completion env building_id building_analytics_id api_key base_url
       poll_interval_seconds max_attempts tr =
     poll_loop env building_id building_analytics_id api_key base_url poll_interval_seconds
       (nat max_attempts) None tr"


section \<open>\<^verbatim>\<open>main_explorer.main\<close>: one building\<close>

text \<open>
  The body of the loop over the buildings, lines 108 to 132: where the iteration ends and
  with which object. \<open>TriggerFailed\<close> is the \<^verbatim>\<open>continue\<close> of line 118 (the response
  is printed), \<open>InitialFailed\<close> the one of line 126 (the response is displayed) and
  \<open>Polled\<close> the end of the body (the result of the poll is displayed). The display itself
  only prints and is not modelled.
\<close>

datatype building_outcome =
    TriggerFailed pyval
  | InitialFailed pyval
  | Polled poll_exit pyval

definition process_building ::
  "env \<Rightarrow> pyval \<Rightarrow> pyval \<Rightarrow> pyval \<Rightarrow> string option \<Rightarrow> string option \<Rightarrow>
   event list \<Rightarrow> (exc + building_outcome) \<times> event list" where
  "process_building env building_id savings_target min_r_squared api_key base_url tr =
     (case run_building_analysis env building_id savings_target min_r_squared
             api_key base_url tr of
        (Inl e, tr1) \<Rightarrow> (Inl e, tr1)
      | (Inr analysis_trigger_response, tr1) \<Rightarrow>
          if \<not> truthy analysis_trigger_response then
            (Inr (TriggerFailed analysis_trigger_response), tr1)
          else
            (case py_in ''id'' analysis_trigger_response of
               Inl e \<Rightarrow> (Inl e, tr1)
             | Inr False \<Rightarrow> (Inr (TriggerFailed analysis_trigger_response), tr1)
             | Inr True \<Rightarrow>
                 (case py_index analysis_trigger_response ''id'' of
                    Inl e \<Rightarrow> (Inl e, tr1)
                  | Inr building_analytics_id \<Rightarrow>
                      (case py_get analysis_trigger_response ''generation_result'' PNone of
                         Inl e \<Rightarrow> (Inl e, tr1)
                       | Inr generation_result \<Rightarrow>
                           if generation_result = PStr ''FAILED'' then
                             (Inr (InitialFailed analysis_trigger_response), tr1)
                           else
                             (case poll_for_building_analysis_completion env building_id
                                     building_analytics_id api_key base_url 10 30 tr1 of
                                (Inl e, tr2) \<Rightarrow> (Inl e, tr2)
                              | (Inr (ex, final_analysis_results), tr2) \<Rightarrow>
                                  (Inr (Polled ex final_analysis_results), tr2))))))"

section \<open>Scripted environments\<close>

text \<open>
  Environments for running the client on concrete inputs, in the way a mocked transport
  does: the network answers its calls from a fixed list, in order, and refuses the
  connection once the list is used up. They are run on ASCII methods only, where
  \<open>upper_unicode\<close> is not consulted.
\<close>

definition ok_response :: "pyval \<Rightarrow> response" where
  "ok_response v =
     \<lparr>r_status_code = 200, r_content = ''{...}'', r_text = ''{...}'', r_json = Inr v,
      r_error_msg = []\<rparr>"

definition html_response :: "exc_class \<Rightarrow> response" where
  "html_response c =
     \<lparr>r_status_code = 200, r_content = ''<html>'', r_text = ''<html>'',
      r_json = Inl (Exc c ''Expecting value: line 1 column 1 (char 0)''),
      r_error_msg = []\<rparr>"

definition no_content_response :: response where
  "no_content_response =
     \<lparr>r_status_code = 204, r_content = [], r_text = [],
      r_json = Inl (Exc RequestsJSONDecodeError ''Expecting value: line 1 column 1 (char 0)''),
      r_error_msg = []\<rparr>"

definition refused :: "exc + response" where
  "refused = Inl (Exc TransportException ''Connection refused'')"

definition demo_fmt :: "pyval \<Rightarrow> string" where
  "demo_fmt v =
     (case v of
        PStr s \<Rightarrow> s
      | PInt i \<Rightarrow> (if i = 101 then ''101'' else if i = 202 then ''202'' else ''7'')
      | _ \<Rightarrow> ''0'')"

definition scripted :: "(exc + response) list \<Rightarrow> env" where
  "scripted outs =
     \<lparr>net = (\<lambda>k q. if k < length outs then outs ! k else refused), fmt = demo_fmt,
      upper_unicode = (\<lambda>s. s)\<rparr>"

definition in_progress :: pyval where
  "in_progress = PDict [(''id'', PInt 7), (''generation_result'', PStr ''IN_PROGRESS'')]"

definition completed :: pyval where
  "completed =
     PDict [(''id'', PInt 7), (''generation_result'', PStr ''COMPLETE''),
            (''savings_target'', PStr ''NOMINAL'')]"

definition paused :: pyval where
  "paused = PDict [(''id'', PInt 7), (''generation_result'', PStr ''PAUSED'')]"

definition rejected :: pyval where
  "rejected =
     PDict [(''id'', PInt 7), (''generation_result'', PStr ''FAILED''),
            (''generation_message'', PStr ''not enough bills'')]"

section \<open>Lemmas\<close>

subsection \<open>The log\<close>

lemma n_requests_append [simp]: "n_requests (tr @ tr') = n_requests tr + n_requests tr'"
  by (simp add: n_requests_def)

lemma n_requests_simps [simp]:
  "n_requests [] = 0"
  "n_requests (Request q # tr) = Suc (n_requests tr)"
  "n_requests (Sleep s # tr) = n_requests tr"
  by (simp_all add: n_requests_def)

lemma str_upper_GET [simp]: "str_upper env ''GET'' = ''GET''"
  by (simp add: str_upper_def is_ascii_def upper_char_def)

lemmas run_defs =
  make_request_def Let_def perform_def send_def answer_def read_response_def
  str_upper_def is_ascii_def upper_char_def rstrip_def lstrip_def make_headers_def
  scripted_def ok_response_def html_response_def no_content_response_def refused_def
  demo_fmt_def

subsection \<open>The dispatcher\<close>

lemma make_request_missing:
  "missing api_key \<or> missing base_url \<Longrightarrow>
   make_request env method endpoint data params api_key base_url tr =
     (Inr (PDict [(''error'', PStr ''API_KEY and BASE_URL must be provided.'')]), tr)"
  by (simp add: make_request_def)

text \<open>
  On an ASCII method the dispatcher does not consult the Unicode mappings: its result is
  the same under any of them.
\<close>

lemma str_upper_ascii: "list_all is_ascii s \<Longrightarrow> str_upper env s = map upper_char s"
  by (simp add: str_upper_def)

lemma make_request_ascii_method:
  assumes "list_all is_ascii method"
  shows "make_request (env\<lparr>upper_unicode := u\<rparr>) method endpoint data params api_key base_url tr =
         make_request env method endpoint data params api_key base_url tr"
proof -
  have up: "str_upper (env\<lparr>upper_unicode := u\<rparr>) method = str_upper env method"
    using assms by (simp add: str_upper_ascii)
  have pf: "perform (env\<lparr>upper_unicode := u\<rparr>) q tr = perform env q tr" for q
    by (simp add: perform_def send_def)
  show ?thesis
    by (cases api_key; cases base_url) (simp_all add: make_request_def up pf Let_def cong: if_cong)
qed

text \<open>
  A 2xx response with a body that is not JSON, under the two classes that
  \<^verbatim>\<open>Response.json()\<close> can raise: the clause of line 51 is reached only by the class that
  is not a \<^verbatim>\<open>RequestException\<close>; the other one stops at the clause of line 49.
\<close>

lemma answer_decode_old:
  assumes "\<not> (400 \<le> r_status_code r \<and> r_status_code r < 600)" and "r_content r \<noteq> []"
    and "r_json r = Inl (Exc JSONDecodeError m)"
  shows "answer (Inr r) =
         Inr (PDict [(''error'', PStr ''JSONDecodeError''), (''message'', PStr m),
                     (''raw_response'', PStr (r_text r))])"
  using assms by (simp add: answer_def read_response_def)

lemma answer_decode_requests:
  assumes "\<not> (400 \<le> r_status_code r \<and> r_status_code r < 600)" and "r_content r \<noteq> []"
    and "r_json r = Inl (Exc RequestsJSONDecodeError m)"
  shows "answer (Inr r) =
         Inr (PDict [(''error'', PStr ''RequestException''), (''message'', PStr m)])"
  using assms by (simp add: answer_def read_response_def)

subsection \<open>Stripping slashes\<close>

lemma takeWhile_eq_replicate:
  "takeWhile (\<lambda>x. x = c) s = replicate (length (takeWhile (\<lambda>x. x = c) s)) c"
  by (induction s) simp_all

lemma dropWhile_eq_no_head: "dropWhile (\<lambda>x. x = c) s \<noteq> c # e"
  by (induction s) simp_all

lemma rstrip_decomp: "\<exists>n. s = rstrip c s @ replicate n c"
proof -
  let ?P = "\<lambda>x. x = c"
  have "rev s = takeWhile ?P (rev s) @ dropWhile ?P (rev s)" by simp
  moreover have "takeWhile ?P (rev s) = replicate (length (takeWhile ?P (rev s))) c"
    by (rule takeWhile_eq_replicate)
  ultimately have "rev s = replicate (length (takeWhile ?P (rev s))) c @ dropWhile ?P (rev s)"
    by simp
  then have "rev (rev s) = rev (replicate (length (takeWhile ?P (rev s))) c @ dropWhile ?P (rev s))"
    by (rule arg_cong)
  then have "s = rstrip c s @ replicate (length (takeWhile ?P (rev s))) c"
    by (simp add: rstrip_def)
  then show ?thesis ..
qed

lemma rstrip_no_trailing: "rstrip c s \<noteq> b @ [c]"
proof
  assume "rstrip c s = b @ [c]"
  then have "dropWhile (\<lambda>x. x = c) (rev s) = c # rev b"
    by (simp add: rstrip_def rev_swap)
  then show False
    by (simp add: dropWhile_eq_no_head)
qed

lemma lstrip_decomp: "\<exists>m. s = replicate m c @ lstrip c s"
proof -
  let ?P = "\<lambda>x. x = c"
  have "s = takeWhile ?P s @ dropWhile ?P s" by simp
  moreover have "takeWhile ?P s = replicate (length (takeWhile ?P s)) c"
    by (rule takeWhile_eq_replicate)
  ultimately have "s = replicate (length (takeWhile ?P s)) c @ lstrip c s"
    by (simp add: lstrip_def)
  then show ?thesis ..
qed

lemma lstrip_no_leading: "lstrip c s \<noteq> c # e"
  by (simp add: lstrip_def dropWhile_eq_no_head)

lemma rstrip_snoc: "rstrip c (s @ [c]) = rstrip c s"
  by (simp add: rstrip_def)

lemma lstrip_Cons: "lstrip c (c # s) = lstrip c s"
  by (simp add: lstrip_def)

lemma make_request_trace:
  "snd (make_request env method endpoint data params api_key base_url tr) = tr \<or>
   (\<exists>q base. base_url = Some base \<and>
      q_url q = rstrip CHR ''/'' base @ ''/'' @ lstrip CHR ''/'' endpoint \<and>
      snd (make_request env method endpoint data params api_key base_url tr) = tr @ [Request q])"
  by (cases api_key; cases base_url) (simp_all add: make_request_def Let_def perform_def send_def)

lemma make_request_issued:
  assumes "Request q \<in> set (drop (length tr)
             (snd (make_request env method endpoint data params api_key (Some base) tr)))"
  shows "q_url q = rstrip CHR ''/'' base @ ''/'' @ lstrip CHR ''/'' endpoint"
  using assms make_request_trace [of env "method" "endpoint" data params api_key "Some base" tr]
  by auto

subsection \<open>The poll loop\<close>

lemma get_details_perform:
  "key \<noteq> [] \<Longrightarrow> base \<noteq> [] \<Longrightarrow>
   get_building_analysis_details env bid aid (Some key) (Some base) False False tr =
     (answer (net env (n_requests tr) (status_request env bid aid key base)),
      tr @ [Request (status_request env bid aid key base)])"
  by (simp add: get_building_analysis_details_def make_request_def Let_def
      perform_def send_def status_request_def)

lemma sleep_ok: "0 \<le> secs \<Longrightarrow> sleep secs tr = (Inr (), tr @ [Sleep secs])"
  by (simp add: sleep_def)

lemma poll_body_in_progress:
  assumes "0 \<le> secs" and "map_of d ''generation_result'' = Some (PStr ''IN_PROGRESS'')"
  shows "poll_body secs (PDict d) tr = (Continue, tr @ [Sleep secs])"
proof -
  from assms(2) have ne: "d \<noteq> []" by auto
  show ?thesis
  proof (cases "''error'' \<in> set (map fst d)")
    case True
    with ne assms(1) show ?thesis
      by (simp add: poll_body_def poll_error_branch_def sleep_ok)
  next
    case False
    with ne assms show ?thesis
      by (simp add: poll_body_def sleep_ok)
  qed
qed

lemma poll_body_failure:
  assumes "0 \<le> secs" and "''error'' \<in> set (map fst d)"
  shows "poll_body secs (PDict d) tr = (Continue, tr @ [Sleep secs])"
proof -
  from assms(2) have ne: "d \<noteq> []" by auto
  with assms show ?thesis
    by (simp add: poll_body_def poll_error_branch_def sleep_ok)
qed

lemma poll_body_falsy:
  assumes "0 \<le> secs" and "\<not> truthy v"
  shows "poll_body secs v tr = (Continue, tr @ [Sleep secs])"
  using assms by (simp add: poll_body_def poll_error_branch_def sleep_ok)

lemma poll_loop_step_continue:
  assumes "key \<noteq> []" "base \<noteq> []"
    and "answer (net env (n_requests tr) (status_request env bid aid key base)) = Inr d"
    and "poll_body secs d (tr @ [Request (status_request env bid aid key base)]) =
           (Continue, tr @ [Request (status_request env bid aid key base)] @ [Sleep secs])"
  shows "poll_loop env bid aid (Some key) (Some base) secs (Suc n) prev tr =
         poll_loop env bid aid (Some key) (Some base) secs n (Some d)
           (tr @ [Request (status_request env bid aid key base), Sleep secs])"
  using assms by (simp add: get_details_perform)

lemma poll_loop_step_return:
  assumes "key \<noteq> []" "base \<noteq> []"
    and "answer (net env (n_requests tr) (status_request env bid aid key base)) = Inr d"
    and "poll_body secs d (tr @ [Request (status_request env bid aid key base)]) =
           (Return res, tr @ [Request (status_request env bid aid key base)])"
  shows "poll_loop env bid aid (Some key) (Some base) secs (Suc n) prev tr =
         (Inr res, tr @ [Request (status_request env bid aid key base)])"
  using assms by (simp add: get_details_perform)

lemma poll_loop_skip:
  assumes cred: "key \<noteq> []" "base \<noteq> []"
  shows "(\<forall>i<j. \<exists>d. answer (net env (n_requests tr + i) (status_request env bid aid key base)) = Inr d
              \<and> (\<forall>t. poll_body secs d t = (Continue, t @ [Sleep secs]))) \<Longrightarrow>
     \<exists>prev'. poll_loop env bid aid (Some key) (Some base) secs (j + m) prev tr =
              poll_loop env bid aid (Some key) (Some base) secs m prev'
                (tr @ concat (replicate j [Request (status_request env bid aid key base), Sleep secs]))
         \<and> (j = 0 \<longrightarrow> prev' = prev)
         \<and> (\<forall>j'. j = Suc j' \<longrightarrow> (\<exists>d. prev' = Some d \<and>
               answer (net env (n_requests tr + j') (status_request env bid aid key base)) = Inr d))"
proof (induction j arbitrary: prev tr)
  case 0
  then show ?case by simp
next
  case (Suc j)
  let ?Q = "status_request env bid aid key base"
  let ?tr = "tr @ [Request ?Q, Sleep secs]"
  from Suc.prems obtain d0 where d0: "answer (net env (n_requests tr) ?Q) = Inr d0"
    and c0: "\<forall>t. poll_body secs d0 t = (Continue, t @ [Sleep secs])"
    by force
  have step: "poll_loop env bid aid (Some key) (Some base) secs (Suc (j + m)) prev tr =
              poll_loop env bid aid (Some key) (Some base) secs (j + m) (Some d0) ?tr"
    using cred d0 c0 by (intro poll_loop_step_continue) simp_all
  have hyp: "\<forall>i<j. \<exists>d. answer (net env (n_requests ?tr + i) ?Q) = Inr d
              \<and> (\<forall>t. poll_body secs d t = (Continue, t @ [Sleep secs]))"
  proof (intro allI impI)
    fix i assume "i < j"
    then have "Suc i < Suc j" by simp
    with Suc.prems obtain d where "answer (net env (n_requests tr + Suc i) ?Q) = Inr d"
      "\<forall>t. poll_body secs d t = (Continue, t @ [Sleep secs])" by blast
    then show "\<exists>d. answer (net env (n_requests ?tr + i) ?Q) = Inr d
              \<and> (\<forall>t. poll_body secs d t = (Continue, t @ [Sleep secs]))"
      by simp
  qed
  from Suc.IH [OF hyp, of "Some d0"] obtain prev' where
    run: "poll_loop env bid aid (Some key) (Some base) secs (j + m) (Some d0) ?tr =
          poll_loop env bid aid (Some key) (Some base) secs m prev'
            (?tr @ concat (replicate j [Request ?Q, Sleep secs]))"
    and z: "j = 0 \<longrightarrow> prev' = Some d0"
    and s: "\<forall>j'. j = Suc j' \<longrightarrow> (\<exists>d. prev' = Some d \<and> answer (net env (n_requests ?tr + j') ?Q) = Inr d)"
    by (elim exE conjE) (rule that)
  have last: "\<exists>d. prev' = Some d \<and> answer (net env (n_requests tr + j) ?Q) = Inr d"
  proof (cases j)
    case 0
    with z d0 show ?thesis by simp
  next
    case (Suc j')
    with s show ?thesis by simp
  qed
  show ?case
    using step run last by (intro exI [of _ prev']) simp
qed


section \<open>The dispatcher: properties\<close>

text \<open>
  C6. A 2xx response with a non-empty body that is not JSON is to give the record of a
  decoding error, with the message and the raw text. With the exception that
  \<^verbatim>\<open>Response.json()\<close> raises since requests 2.27, a subclass of
  \<^verbatim>\<open>RequestException\<close>, the clause of line 49 catches it first: the client returns a
  \<^verbatim>\<open>RequestException\<close> record, without \<^verbatim>\<open>raw_response\<close>.
\<close>

theorem make_request_decode_error_as_request_exception:
  "make_request (scripted [Inr (html_response RequestsJSONDecodeError)]) ''GET''
     ''/portfolios/'' PNone PNone (Some ''k'') (Some ''https://h/api'') [] =
   (Inr (PDict [(''error'', PStr ''RequestException''),
                (''message'', PStr ''Expecting value: line 1 column 1 (char 0)'')]),
    [Request \<lparr>q_func = ''get'', q_url = ''https://h/api/portfolios/'',
              q_headers = make_headers ''k'', q_json = None, q_params = PNone\<rparr>])"
  by (simp add: run_defs)

text \<open>
  C7, as stated: every method outside GET, POST, PATCH and DELETE is refused without a
  network call. The method is compared after \<^verbatim>\<open>upper()\<close>, so \<^verbatim>\<open>get\<close> is sent as a
  GET; and without credentials the answer is the one of the credentials check.
\<close>

theorem make_request_lowercase_method_dispatched:
  "''get'' \<notin> {''GET'', ''POST'', ''PATCH'', ''DELETE''} \<and>
   make_request (scripted [Inr (ok_response (PList []))]) ''get'' ''/portfolios/'' PNone PNone
     (Some ''k'') (Some ''https://h/api'') [] =
   (Inr (PList []),
    [Request \<lparr>q_func = ''get'', q_url = ''https://h/api/portfolios/'',
              q_headers = make_headers ''k'', q_json = None, q_params = PNone\<rparr>]) \<and>
   ''PUT'' \<notin> {''GET'', ''POST'', ''PATCH'', ''DELETE''} \<and>
   make_request (scripted []) ''PUT'' ''/portfolios/'' PNone PNone None (Some ''https://h/api'') [] =
   (Inr (PDict [(''error'', PStr ''API_KEY and BASE_URL must be provided.'')]), [])"
  by (simp add: run_defs)

text \<open>
  C7, amended: with a key and a base URL, a method whose upper-case form, as
  \<^verbatim>\<open>str.upper()\<close> gives it (Unicode mappings included), is none of GET, POST, PATCH and
  DELETE gives the record \<^verbatim>\<open>Unsupported HTTP method\<close> and leaves the log as it was: no
  network call.
\<close>

theorem make_request_unsupported_method:
  assumes "\<not> missing api_key" and "\<not> missing base_url"
    and "str_upper env method \<notin> {''GET'', ''POST'', ''PATCH'', ''DELETE''}"
  shows "make_request env method endpoint data params api_key base_url tr =
     (Inr (PDict [(''error'', PStr (''Unsupported HTTP method: '' @ method))]), tr)"
proof -
  from assms(1,2) obtain key base where "api_key = Some key" "base_url = Some base"
    by (cases api_key; cases base_url) simp_all
  with assms show ?thesis by (simp add: make_request_def Let_def)
qed

text \<open>
  C7, amended, on the method \<^verbatim>\<open>put\<close> with a key and a base URL.
\<close>

theorem make_request_unsupported_method_witness:
  "\<not> missing (Some ''k'') \<and> \<not> missing (Some ''https://h/api'') \<and>
   str_upper (scripted []) ''put'' \<notin> {''GET'', ''POST'', ''PATCH'', ''DELETE''} \<and>
   make_request (scripted []) ''put'' ''/portfolios/'' PNone PNone (Some ''k'') (Some ''https://h/api'') [] =
     (Inr (PDict [(''error'', PStr ''Unsupported HTTP method: put'')]), [])"
proof -
  have a: "\<not> missing (Some ''k'')" and b: "\<not> missing (Some ''https://h/api'')" by simp_all
  have c: "str_upper (scripted []) ''put'' \<notin> {''GET'', ''POST'', ''PATCH'', ''DELETE''}"
    by (simp add: str_upper_def is_ascii_def upper_char_def)
  from make_request_unsupported_method [OF a b c, of "''/portfolios/''" PNone PNone "[]"] a b c
  show ?thesis by simp
qed

text \<open>
  C8. When the key or the base URL is missing (\<^verbatim>\<open>None\<close> or empty), the result is the
  record \<^verbatim>\<open>API_KEY and BASE_URL must be provided.\<close> and the log is unchanged: no network
  call.
\<close>

theorem make_request_missing_credentials:
  "missing api_key \<or> missing base_url \<Longrightarrow>
   make_request env method endpoint data params api_key base_url tr =
     (Inr (PDict [(''error'', PStr ''API_KEY and BASE_URL must be provided.'')]), tr)"
  by (simp add: make_request_def)

text \<open>
  C8 on a call without an API key.
\<close>

theorem make_request_missing_credentials_witness:
  "(missing None \<or> missing (Some ''https://h/api'')) \<and>
   make_request (scripted []) ''GET'' ''/portfolios/'' PNone PNone None (Some ''https://h/api'') [] =
     (Inr (PDict [(''error'', PStr ''API_KEY and BASE_URL must be provided.'')]), [])"
  using make_request_missing_credentials [of None "Some ''https://h/api''" "scripted []" "''GET''" "''/portfolios/''" PNone PNone "[]"]
  by simp

text \<open>
  C9. When the credentials are missing, whatever the method is, and so for an unsupported
  one too, the result is the one of the credentials check, not the one of the method
  check; it is the same for any two methods, and the log is unchanged.
\<close>

theorem make_request_credentials_before_method:
  assumes "missing api_key \<or> missing base_url"
  shows "make_request env method endpoint data params api_key base_url tr =
           (Inr (PDict [(''error'', PStr ''API_KEY and BASE_URL must be provided.'')]), tr)
       \<and> fst (make_request env method endpoint data params api_key base_url tr) \<noteq>
           Inr (PDict [(''error'', PStr (''Unsupported HTTP method: '' @ method))])
       \<and> make_request env method endpoint data params api_key base_url tr =
           make_request env method' endpoint data params api_key base_url tr"
proof -
  have neq: "''API_KEY and BASE_URL must be provided.'' \<noteq> ''Unsupported HTTP method: '' @ method"
    by simp
  show ?thesis using assms neq by (simp add: make_request_missing)
qed

text \<open>
  C9 on the method \<^verbatim>\<open>PUT\<close> with an empty API key.
\<close>

theorem make_request_credentials_before_method_witness:
  "(missing (Some []) \<or> missing (Some ''https://h/api'')) \<and>
   str_upper (scripted []) ''PUT'' \<notin> {''GET'', ''POST'', ''PATCH'', ''DELETE''} \<and>
   make_request (scripted []) ''PUT'' ''/portfolios/'' PNone PNone (Some []) (Some ''https://h/api'') [] =
     (Inr (PDict [(''error'', PStr ''API_KEY and BASE_URL must be provided.'')]), [])"
proof -
  have a: "missing (Some []) \<or> missing (Some ''https://h/api'')" by simp
  have b: "str_upper (scripted []) ''PUT'' \<notin> {''GET'', ''POST'', ''PATCH'', ''DELETE''}"
    by (simp add: str_upper_def is_ascii_def upper_char_def)
  from make_request_credentials_before_method [OF a] a b show ?thesis by blast
qed

text \<open>
  C10. Every request that a call of the dispatcher sends has the URL made of the base URL
  without its trailing slashes, one slash, and the endpoint without its leading slashes;
  a call with one more slash at the end of the base URL and a call with one more slash at
  the start of the endpoint send to the same URL.
\<close>

theorem make_request_url_slash_insensitive:
  "(\<forall>q. Request q \<in> set (drop (length tr)
           (snd (make_request env method endpoint data params api_key (Some base_url) tr))) \<longrightarrow>
        (\<exists>b e n m. base_url = b @ replicate n CHR ''/'' \<and> (\<forall>b'. b \<noteq> b' @ ''/'') \<and>
                    replicate m CHR ''/'' @ e = endpoint \<and> (\<forall>e'. e \<noteq> ''/'' @ e') \<and>
                    q_url q = b @ ''/'' @ e))
   \<and> (\<forall>q q'. Request q \<in> set (drop (length tr)
                  (snd (make_request env method endpoint data params api_key
                          (Some (base_url @ ''/'')) tr))) \<and>
               Request q' \<in> set (drop (length tr)
                  (snd (make_request env method (''/'' @ endpoint) data params api_key
                          (Some base_url) tr))) \<longrightarrow>
               q_url q = q_url q')"
proof (intro conjI allI impI)
  fix q
  assume "Request q \<in> set (drop (length tr)
           (snd (make_request env method endpoint data params api_key (Some base_url) tr)))"
  then have url: "q_url q = rstrip CHR ''/'' base_url @ ''/'' @ lstrip CHR ''/'' endpoint"
    by (rule make_request_issued)
  obtain n where n: "base_url = rstrip CHR ''/'' base_url @ replicate n CHR ''/''"
    using rstrip_decomp by blast
  obtain m where m: "endpoint = replicate m CHR ''/'' @ lstrip CHR ''/'' endpoint"
    using lstrip_decomp by blast
  have "\<forall>b'. rstrip CHR ''/'' base_url \<noteq> b' @ ''/''"
    using rstrip_no_trailing by simp
  moreover have "\<forall>e'. lstrip CHR ''/'' endpoint \<noteq> ''/'' @ e'"
    using lstrip_no_leading by simp
  ultimately show "\<exists>b e n m. base_url = b @ replicate n CHR ''/'' \<and> (\<forall>b'. b \<noteq> b' @ ''/'') \<and>
                    replicate m CHR ''/'' @ e = endpoint \<and> (\<forall>e'. e \<noteq> ''/'' @ e') \<and>
                    q_url q = b @ ''/'' @ e"
    using url n m [symmetric] by blast
next
  fix q q'
  assume "Request q \<in> set (drop (length tr)
                  (snd (make_request env method endpoint data params api_key
                          (Some (base_url @ ''/'')) tr))) \<and>
          Request q' \<in> set (drop (length tr)
                  (snd (make_request env method (''/'' @ endpoint) data params api_key
                          (Some base_url) tr)))"
  then have "q_url q = rstrip CHR ''/'' (base_url @ ''/'') @ ''/'' @ lstrip CHR ''/'' endpoint"
    and "q_url q' = rstrip CHR ''/'' base_url @ ''/'' @ lstrip CHR ''/'' (''/'' @ endpoint)"
    by (auto dest: make_request_issued)
  then show "q_url q = q_url q'"
    using rstrip_snoc [of "CHR ''/''" base_url] lstrip_Cons [of "CHR ''/''" endpoint] by simp
qed

text \<open>
  C10 on the base URL \<^verbatim>\<open>https://h/api\<close> and the endpoint \<^verbatim>\<open>portfolios/\<close>.
\<close>

theorem make_request_url_slash_insensitive_witness:
  "Request \<lparr>q_func = ''get'', q_url = ''https://h/api/portfolios/'',
            q_headers = make_headers ''k'', q_json = None, q_params = PNone\<rparr>
     \<in> set (drop (length [])
          (snd (make_request (scripted []) ''GET'' ''portfolios/'' PNone PNone (Some ''k'')
             (Some (''https://h/api'' @ ''/'')) []))) \<and>
   Request \<lparr>q_func = ''get'', q_url = ''https://h/api/portfolios/'',
            q_headers = make_headers ''k'', q_json = None, q_params = PNone\<rparr>
     \<in> set (drop (length [])
          (snd (make_request (scripted []) ''GET'' (''/'' @ ''portfolios/'') PNone PNone (Some ''k'')
             (Some ''https://h/api'') []))) \<and>
   (\<exists>b e n m. ''https://h/api'' = b @ replicate n CHR ''/'' \<and> (\<forall>b'. b \<noteq> b' @ ''/'') \<and>
       replicate m CHR ''/'' @ e = ''/'' @ ''portfolios/'' \<and> (\<forall>e'. e \<noteq> ''/'' @ e') \<and>
       ''https://h/api/portfolios/'' = b @ ''/'' @ e)"
proof -
  let ?q = "\<lparr>q_func = ''get'', q_url = ''https://h/api/portfolios/'',
            q_headers = make_headers ''k'', q_json = None, q_params = PNone\<rparr>"
  have a: "Request ?q \<in> set (drop (length [])
          (snd (make_request (scripted []) ''GET'' ''portfolios/'' PNone PNone (Some ''k'')
             (Some (''https://h/api'' @ ''/'')) [])))"
    by (simp add: run_defs)
  have b: "Request ?q \<in> set (drop (length [])
          (snd (make_request (scripted []) ''GET'' (''/'' @ ''portfolios/'') PNone PNone (Some ''k'')
             (Some ''https://h/api'') [])))"
    by (simp add: run_defs)
  from make_request_url_slash_insensitive
       [of "[]" "scripted []" "''GET''" "''/'' @ ''portfolios/''" PNone PNone "Some ''k''"
           "''https://h/api''"] b
  have "\<exists>b e n m. ''https://h/api'' = b @ replicate n CHR ''/'' \<and> (\<forall>b'. b \<noteq> b' @ ''/'') \<and>
       replicate m CHR ''/'' @ e = ''/'' @ ''portfolios/'' \<and> (\<forall>e'. e \<noteq> ''/'' @ e') \<and>
       q_url ?q = b @ ''/'' @ e"
    by blast
  with a b show ?thesis by simp
qed


section \<open>The poll loop and the submission: lemmas\<close>

lemma n_requests_rounds [simp]:
  "n_requests (concat (replicate n [Request q, Sleep s])) = n"
  by (induction n) simp_all

lemma poll_body_complete:
  assumes "map_of c ''generation_result'' = Some (PStr ''COMPLETE'')"
    and "''error'' \<notin> set (map fst c)"
  shows "poll_body secs (PDict c) t = (Return (Complete, PDict c), t)"
proof -
  from assms(1) have "c \<noteq> []" by auto
  with assms show ?thesis by (simp add: poll_body_def)
qed

lemma poll_body_unexpected:
  assumes "d \<noteq> []" and "''error'' \<notin> set (map fst d)"
    and "map_of d ''generation_result'' \<notin>
           {Some (PStr ''COMPLETE''), Some (PStr ''FAILED''), Some (PStr ''IN_PROGRESS'')}"
  shows "poll_body secs (PDict d) t = (Return (Unexpected, PDict d), t)"
  using assms by (auto simp: poll_body_def split: option.splits)

lemma in_progress_retried:
  assumes "0 \<le> secs"
    and "\<forall>i<n. \<exists>d. answer (net env (k + i) q) = Inr (PDict d) \<and>
           map_of d ''generation_result'' = Some (PStr ''IN_PROGRESS'')"
  shows "\<forall>i<n. \<exists>d. answer (net env (k + i) q) = Inr d \<and>
           (\<forall>t. poll_body secs d t = (Continue, t @ [Sleep secs]))"
proof (intro allI impI)
  fix i assume "i < n"
  with assms(2) obtain d where d: "answer (net env (k + i) q) = Inr (PDict d)"
    and g: "map_of d ''generation_result'' = Some (PStr ''IN_PROGRESS'')" by blast
  from assms(1) g have "\<forall>t. poll_body secs (PDict d) t = (Continue, t @ [Sleep secs])"
    by (simp add: poll_body_in_progress)
  with d show "\<exists>d. answer (net env (k + i) q) = Inr d \<and>
           (\<forall>t. poll_body secs d t = (Continue, t @ [Sleep secs]))" by blast
qed

lemma net_scripted: "net (scripted outs) k q = (if k < length outs then outs ! k else refused)"
  by (simp add: scripted_def)

lemma answer_ok: "answer (Inr (ok_response v)) = Inr v"
  by (simp add: answer_def read_response_def ok_response_def)

lemma answer_no_content: "answer (Inr no_content_response) = Inr PNone"
  by (simp add: answer_def read_response_def no_content_response_def)

lemma answer_refused:
  "answer refused =
     Inr (PDict [(''error'', PStr ''RequestException''), (''message'', PStr ''Connection refused'')])"
  by (simp add: answer_def refused_def)

lemma status_request_scripted:
  "status_request (scripted outs) bid aid key base = status_request (scripted []) bid aid key base"
  by (simp add: status_request_def scripted_def)

lemma failure_retried:
  assumes "0 \<le> secs"
    and "\<forall>i<n. \<exists>d. answer (net env (k + i) q) = Inr (PDict d) \<and> ''error'' \<in> set (map fst d)"
  shows "\<forall>i<n. \<exists>d. answer (net env (k + i) q) = Inr d \<and>
           (\<forall>t. poll_body secs d t = (Continue, t @ [Sleep secs]))"
proof (intro allI impI)
  fix i assume "i < n"
  with assms(2) obtain d where d: "answer (net env (k + i) q) = Inr (PDict d)"
    and g: "''error'' \<in> set (map fst d)" by blast
  from assms(1) g have "\<forall>t. poll_body secs (PDict d) t = (Continue, t @ [Sleep secs])"
    by (simp add: poll_body_failure)
  with d show "\<exists>d. answer (net env (k + i) q) = Inr d \<and>
           (\<forall>t. poll_body secs d t = (Continue, t @ [Sleep secs]))" by blast
qed

lemma poll_loop_missing:
  assumes "missing api_key \<or> missing base_url" and "0 \<le> secs"
  shows "poll_loop env bid aid api_key base_url secs (Suc n) prev tr =
           (Inr (TimedOut, PDict [(''error'', PStr ''API_KEY and BASE_URL must be provided.'')]),
            tr @ replicate (Suc n) (Sleep secs))"
proof (induction n arbitrary: prev tr)
  case 0
  from assms show ?case
    by (simp add: get_building_analysis_details_def make_request_missing poll_body_failure)
next
  case (Suc n)
  have "poll_loop env bid aid api_key base_url secs (Suc (Suc n)) prev tr =
        poll_loop env bid aid api_key base_url secs (Suc n)
          (Some (PDict [(''error'', PStr ''API_KEY and BASE_URL must be provided.'')]))
          (tr @ [Sleep secs])"
    using assms
    by (simp add: get_building_analysis_details_def make_request_missing poll_body_failure)
  then show ?case
    using Suc.IH by (simp add: replicate_append_same)
qed

lemma poll_no_attempts:
  "max_attempts \<le> 0 \<Longrightarrow>
   poll_for_building_analysis_completion env bid aid api_key base_url secs max_attempts tr =
     (Inr (TimedOut, PDict [(''error'', PStr ''Polling failed to get details.'')]), tr)"
  by (simp add: poll_for_building_analysis_completion_def)

lemma str_upper_POST [simp]: "str_upper env ''POST'' = ''POST''"
  by (simp add: str_upper_def is_ascii_def upper_char_def)

lemma run_analysis_perform:
  "key \<noteq> [] \<Longrightarrow> base \<noteq> [] \<Longrightarrow>
   run_building_analysis env bid st r2 (Some key) (Some base) tr =
     (answer (net env (n_requests tr) (submit_request env bid st r2 key base)),
      tr @ [Request (submit_request env bid st r2 key base)])"
  by (simp add: run_building_analysis_def make_request_def Let_def
      perform_def send_def submit_request_def)


section \<open>The poll loop and the submission: properties\<close>

text \<open>
  C1. For \<open>max_attempts \<ge> 1\<close> and a non-negative interval: when each of the
  \<open>max_attempts\<close> status queries returns a dict whose \<^verbatim>\<open>generation_result\<close> is
  \<^verbatim>\<open>IN_PROGRESS\<close>, the poll sends exactly \<open>max_attempts\<close> requests, each followed by a
  sleep, leaves by the \<^verbatim>\<open>return\<close> after the loop and returns the dict of the last
  query.
\<close>

theorem poll_in_progress_until_timed_out:
  assumes "1 \<le> max_attempts" and "0 \<le> secs" and "key \<noteq> []" and "base \<noteq> []"
    and "\<forall>k<nat max_attempts. \<exists>d.
           answer (net env (n_requests tr + k) (status_request env bid aid key base)) = Inr (PDict d) \<and>
           map_of d ''generation_result'' = Some (PStr ''IN_PROGRESS'')"
  shows "\<exists>d. answer (net env (n_requests tr + (nat max_attempts - 1))
                 (status_request env bid aid key base)) = Inr (PDict d) \<and>
           poll_for_building_analysis_completion env bid aid (Some key) (Some base) secs
               max_attempts tr =
             (Inr (TimedOut, PDict d),
              tr @ concat (replicate (nat max_attempts)
                     [Request (status_request env bid aid key base), Sleep secs])) \<and>
           n_requests (snd (poll_for_building_analysis_completion env bid aid (Some key)
               (Some base) secs max_attempts tr)) = n_requests tr + nat max_attempts"
proof -
  let ?Q = "status_request env bid aid key base"
  let ?n = "nat max_attempts"
  from assms(1) obtain n' where n': "?n = Suc n'" by (cases ?n) simp_all
  have retried: "\<forall>i<?n. \<exists>d. answer (net env (n_requests tr + i) ?Q) = Inr d \<and>
                   (\<forall>t. poll_body secs d t = (Continue, t @ [Sleep secs]))"
    using assms(2,5) by (rule in_progress_retried)
  from poll_loop_skip [OF assms(3,4) retried, where m = 0 and prev = None]
  obtain prev' where run: "poll_loop env bid aid (Some key) (Some base) secs (?n + 0) None tr =
        poll_loop env bid aid (Some key) (Some base) secs 0 prev'
          (tr @ concat (replicate ?n [Request ?Q, Sleep secs]))"
    and lst: "\<forall>j'. ?n = Suc j' \<longrightarrow> (\<exists>d. prev' = Some d \<and>
               answer (net env (n_requests tr + j') ?Q) = Inr d)"
    by (elim exE conjE) (rule that)
  from lst n' obtain d' where p: "prev' = Some d'"
    and d': "answer (net env (n_requests tr + n') ?Q) = Inr d'" by blast
  from assms(5) n' obtain d where d: "answer (net env (n_requests tr + n') ?Q) = Inr (PDict d)"
    by auto
  with d' have "d' = PDict d" by simp
  with run p d n' show ?thesis
    by (intro exI [of _ d]) (simp add: poll_for_building_analysis_completion_def)
qed

text \<open>
  C1 on a script of two \<^verbatim>\<open>IN_PROGRESS\<close> answers and \<open>max_attempts = 2\<close>.
\<close>

theorem poll_in_progress_until_timed_out_witness:
  "poll_for_building_analysis_completion
     (scripted [Inr (ok_response in_progress), Inr (ok_response in_progress)])
     (PInt 101) (PInt 7) (Some ''k'') (Some ''https://h/api'') 10 2 [] =
   (Inr (TimedOut, in_progress),
    [Request (status_request (scripted []) (PInt 101) (PInt 7) ''k'' ''https://h/api''), Sleep 10,
     Request (status_request (scripted []) (PInt 101) (PInt 7) ''k'' ''https://h/api''), Sleep 10])"
proof -
  let ?E = "scripted [Inr (ok_response in_progress), Inr (ok_response in_progress)]"
  let ?Q = "status_request ?E (PInt 101) (PInt 7) ''k'' ''https://h/api''"
  have ans: "answer (net ?E i ?Q) = Inr in_progress" if "i < 2" for i
  proof -
    from that have "i = 0 \<or> i = Suc 0" by (rule less_2_cases)
    then show ?thesis by (auto simp: net_scripted answer_ok)
  qed
  have h: "\<forall>k<nat 2. \<exists>d. answer (net ?E (n_requests [] + k) ?Q) = Inr (PDict d) \<and>
             map_of d ''generation_result'' = Some (PStr ''IN_PROGRESS'')"
    using ans by (simp add: in_progress_def)
  have Q: "?Q = status_request (scripted []) (PInt 101) (PInt 7) ''k'' ''https://h/api''"
    by (rule status_request_scripted)
  from poll_in_progress_until_timed_out [of 2 10 "''k''" "''https://h/api''" ?E "[]" "PInt 101" "PInt 7", OF _ _ _ _ h]
  obtain d where a: "answer (net ?E (n_requests [] + (nat 2 - 1)) ?Q) = Inr (PDict d)"
    and b: "poll_for_building_analysis_completion ?E (PInt 101) (PInt 7) (Some ''k'')
              (Some ''https://h/api'') 10 2 [] =
            (Inr (TimedOut, PDict d), [] @ concat (replicate (nat 2) [Request ?Q, Sleep 10]))"
    by auto
  from a ans [of 1] have "PDict d = in_progress" by simp
  with b Q show ?thesis by (simp add: numeral_2_eq_2)
qed

text \<open>
  C2, as stated: when every query fails in the dispatcher, the poll is to return a
  dedicated marker. With a network that refuses all five calls the poll returns the
  \<^verbatim>\<open>RequestException\<close> record of the last call: after one iteration the local
  variable \<^verbatim>\<open>details\<close> is bound, and line 172 returns it.
\<close>

theorem poll_all_failures_no_marker:
  "fst (poll_for_building_analysis_completion (scripted []) (PInt 202) (PInt 7) (Some ''k'')
          (Some ''https://h/api'') 10 5 []) =
     Inr (TimedOut, PDict [(''error'', PStr ''RequestException''),
                           (''message'', PStr ''Connection refused'')]) \<and>
   fst (poll_for_building_analysis_completion (scripted []) (PInt 202) (PInt 7) (Some ''k'')
          (Some ''https://h/api'') 10 5 []) \<noteq>
     Inr (TimedOut, PDict [(''error'', PStr ''Polling failed to get details.'')]) \<and>
   n_requests (snd (poll_for_building_analysis_completion (scripted []) (PInt 202) (PInt 7)
          (Some ''k'') (Some ''https://h/api'') 10 5 [])) = 5"
  by (simp add: poll_for_building_analysis_completion_def eval_nat_numeral get_details_perform
      net_scripted answer_refused poll_body_failure)

text \<open>
  C2, amended: for \<open>max_attempts \<ge> 1\<close> and a non-negative interval, when every query
  returns an error record (a dict with the key \<^verbatim>\<open>error\<close>), the poll runs all its
  attempts, sleeping after each, and returns the error record of the last query; without
  credentials that record is the one of the credentials check and no request is sent.
\<close>

theorem poll_all_failures_last_record:
  assumes "1 \<le> max_attempts" and "0 \<le> secs"
  shows "(key \<noteq> [] \<and> base \<noteq> [] \<and>
          (\<forall>k<nat max_attempts. \<exists>d.
              answer (net env (n_requests tr + k) (status_request env bid aid key base)) =
                Inr (PDict d) \<and> ''error'' \<in> set (map fst d)) \<longrightarrow>
          (\<exists>d. answer (net env (n_requests tr + (nat max_attempts - 1))
                   (status_request env bid aid key base)) = Inr (PDict d) \<and>
                ''error'' \<in> set (map fst d) \<and>
                poll_for_building_analysis_completion env bid aid (Some key) (Some base) secs
                    max_attempts tr =
                  (Inr (TimedOut, PDict d),
                   tr @ concat (replicate (nat max_attempts)
                          [Request (status_request env bid aid key base), Sleep secs]))))
       \<and> (missing api_key \<or> missing base_url \<longrightarrow>
            poll_for_building_analysis_completion env bid aid api_key base_url secs
                max_attempts tr =
              (Inr (TimedOut,
                    PDict [(''error'', PStr ''API_KEY and BASE_URL must be provided.'')]),
               tr @ replicate (nat max_attempts) (Sleep secs)))"
proof (intro conjI impI)
  let ?Q = "status_request env bid aid key base"
  let ?n = "nat max_attempts"
  from assms(1) obtain n' where n': "?n = Suc n'" by (cases ?n) simp_all
  {
    assume "missing api_key \<or> missing base_url"
    then show "poll_for_building_analysis_completion env bid aid api_key base_url secs
                max_attempts tr =
              (Inr (TimedOut,
                    PDict [(''error'', PStr ''API_KEY and BASE_URL must be provided.'')]),
               tr @ replicate (nat max_attempts) (Sleep secs))"
      using assms(2) n'
      by (simp only: poll_for_building_analysis_completion_def poll_loop_missing)
  }
  assume a: "key \<noteq> [] \<and> base \<noteq> [] \<and>
          (\<forall>k<nat max_attempts. \<exists>d.
              answer (net env (n_requests tr + k) ?Q) =
                Inr (PDict d) \<and> ''error'' \<in> set (map fst d))"
  then have cred: "key \<noteq> []" "base \<noteq> []"
    and fails: "\<forall>k<?n. \<exists>d. answer (net env (n_requests tr + k) ?Q) = Inr (PDict d) \<and>
                  ''error'' \<in> set (map fst d)" by simp_all
  have retried: "\<forall>i<?n. \<exists>d. answer (net env (n_requests tr + i) ?Q) = Inr d \<and>
                   (\<forall>t. poll_body secs d t = (Continue, t @ [Sleep secs]))"
    using assms(2) fails by (rule failure_retried)
  from poll_loop_skip [OF cred retried, where m = 0 and prev = None]
  obtain prev' where run: "poll_loop env bid aid (Some key) (Some base) secs (?n + 0) None tr =
        poll_loop env bid aid (Some key) (Some base) secs 0 prev'
          (tr @ concat (replicate ?n [Request ?Q, Sleep secs]))"
    and lst: "\<forall>j'. ?n = Suc j' \<longrightarrow> (\<exists>d. prev' = Some d \<and>
               answer (net env (n_requests tr + j') ?Q) = Inr d)"
    by (elim exE conjE) (rule that)
  from lst n' obtain d' where p: "prev' = Some d'"
    and d': "answer (net env (n_requests tr + n') ?Q) = Inr d'" by blast
  have "n' < ?n" using n' by simp
  with fails obtain d where d: "answer (net env (n_requests tr + n') ?Q) = Inr (PDict d)"
    and e: "''error'' \<in> set (map fst d)" by blast
  with d' have "d' = PDict d" by simp
  with run p d e n' show "\<exists>d. answer (net env (n_requests tr + (nat max_attempts - 1)) ?Q) =
                Inr (PDict d) \<and> ''error'' \<in> set (map fst d) \<and>
                poll_for_building_analysis_completion env bid aid (Some key) (Some base) secs
                    max_attempts tr =
                  (Inr (TimedOut, PDict d),
                   tr @ concat (replicate (nat max_attempts) [Request ?Q, Sleep secs]))"
    by (intro exI [of _ d]) (simp add: poll_for_building_analysis_completion_def)
qed

text \<open>
  C2, amended, on a network that refuses three calls, and without an API key.
\<close>

theorem poll_all_failures_last_record_witness:
  "poll_for_building_analysis_completion (scripted []) (PInt 202) (PInt 7) (Some ''k'')
     (Some ''https://h/api'') 10 3 [] =
   (Inr (TimedOut, PDict [(''error'', PStr ''RequestException''),
                          (''message'', PStr ''Connection refused'')]),
    [Request (status_request (scripted []) (PInt 202) (PInt 7) ''k'' ''https://h/api''), Sleep 10,
     Request (status_request (scripted []) (PInt 202) (PInt 7) ''k'' ''https://h/api''), Sleep 10,
     Request (status_request (scripted []) (PInt 202) (PInt 7) ''k'' ''https://h/api''), Sleep 10])
   \<and> poll_for_building_analysis_completion (scripted []) (PInt 202) (PInt 7) None
     (Some ''https://h/api'') 10 3 [] =
   (Inr (TimedOut, PDict [(''error'', PStr ''API_KEY and BASE_URL must be provided.'')]),
    [Sleep 10, Sleep 10, Sleep 10])"
proof -
  let ?E = "scripted []"
  let ?Q = "status_request ?E (PInt 202) (PInt 7) ''k'' ''https://h/api''"
  let ?r = "[(''error'', PStr ''RequestException''), (''message'', PStr ''Connection refused'')]"
  have ans: "answer (net ?E i ?Q) = Inr (PDict ?r)" for i
    by (simp add: net_scripted answer_refused)
  have h1: "(1::int) \<le> 3" and h2: "(0::int) \<le> 10" by simp_all
  have h3: "''k'' \<noteq> [] \<and> ''https://h/api'' \<noteq> [] \<and>
            (\<forall>k<nat 3. \<exists>d. answer (net ?E (n_requests [] + k) ?Q) = Inr (PDict d) \<and>
                 ''error'' \<in> set (map fst d))"
    using ans by simp
  have h4: "missing None \<or> missing (Some ''https://h/api'')" by simp
  note inst = poll_all_failures_last_record [OF h1 h2, of "''k''" "''https://h/api''" ?E "[]" "PInt 202" "PInt 7"
                 None "Some ''https://h/api''"]
  from inst h3 obtain d where a: "answer (net ?E (n_requests [] + (nat 3 - 1)) ?Q) = Inr (PDict d)"
    and b: "poll_for_building_analysis_completion ?E (PInt 202) (PInt 7) (Some ''k'')
              (Some ''https://h/api'') 10 3 [] =
            (Inr (TimedOut, PDict d), [] @ concat (replicate (nat 3) [Request ?Q, Sleep 10]))"
    by blast
  from inst h4 have c: "poll_for_building_analysis_completion ?E (PInt 202) (PInt 7) None
         (Some ''https://h/api'') 10 3 [] =
       (Inr (TimedOut, PDict [(''error'', PStr ''API_KEY and BASE_URL must be provided.'')]),
        [] @ replicate (nat 3) (Sleep 10))"
    by blast
  from a ans have "d = ?r" by simp
  with b c show ?thesis by (simp add: eval_nat_numeral)
qed

text \<open>
  C3, as stated: a query that returns \<^verbatim>\<open>COMPLETE\<close> on attempt \<open>k\<close> ends the poll there.
  A 2xx answer whose dict has \<^verbatim>\<open>generation_result\<close> \<^verbatim>\<open>COMPLETE\<close> and also a key
  \<^verbatim>\<open>error\<close> fails the test of line 149 and goes to the error branch: the poll sleeps,
  queries again and here times out with the next snapshot.
\<close>

theorem poll_complete_with_error_key_retried:
  "poll_for_building_analysis_completion
     (scripted [Inr (ok_response (PDict [(''error'', PNone),
                                         (''generation_result'', PStr ''COMPLETE'')])),
                Inr (ok_response in_progress)])
     (PInt 101) (PInt 7) (Some ''k'') (Some ''https://h/api'') 10 2 [] =
   (Inr (TimedOut, in_progress),
    [Request (status_request (scripted []) (PInt 101) (PInt 7) ''k'' ''https://h/api''), Sleep 10,
     Request (status_request (scripted []) (PInt 101) (PInt 7) ''k'' ''https://h/api''), Sleep 10])"
  by (simp add: poll_for_building_analysis_completion_def eval_nat_numeral get_details_perform
      net_scripted answer_ok poll_body_failure poll_body_in_progress in_progress_def
      status_request_scripted [of "[x, y]" for x y])

text \<open>
  C3, amended. For \<open>1 \<le> k \<le> max_attempts\<close> and a non-negative interval: when the queries
  \<open>1\<close> to \<open>k - 1\<close> return \<^verbatim>\<open>IN_PROGRESS\<close> and query \<open>k\<close> returns a dict without
  the key \<^verbatim>\<open>error\<close> whose \<^verbatim>\<open>generation_result\<close> is \<^verbatim>\<open>COMPLETE\<close>, the poll sends
  exactly \<open>k\<close> requests, returns that dict unchanged by the \<^verbatim>\<open>return\<close> of line 154, and
  the last event of the log is the \<open>k\<close>-th request: no sleep follows it.
\<close>

theorem poll_complete_at_attempt:
  assumes "1 \<le> k" and "int k \<le> max_attempts" and "0 \<le> secs" and "key \<noteq> []" and "base \<noteq> []"
    and "\<forall>i<k - 1. \<exists>d.
           answer (net env (n_requests tr + i) (status_request env bid aid key base)) = Inr (PDict d) \<and>
           map_of d ''generation_result'' = Some (PStr ''IN_PROGRESS'')"
    and "answer (net env (n_requests tr + (k - 1)) (status_request env bid aid key base)) =
           Inr (PDict c)"
    and "map_of c ''generation_result'' = Some (PStr ''COMPLETE'')"
    and "''error'' \<notin> set (map fst c)"
  shows "poll_for_building_analysis_completion env bid aid (Some key) (Some base) secs
             max_attempts tr =
           (Inr (Complete, PDict c),
            tr @ concat (replicate (k - 1) [Request (status_request env bid aid key base), Sleep secs])
               @ [Request (status_request env bid aid key base)]) \<and>
         n_requests (snd (poll_for_building_analysis_completion env bid aid (Some key)
             (Some base) secs max_attempts tr)) = n_requests tr + k"
proof -
  let ?Q = "status_request env bid aid key base"
  let ?tr = "tr @ concat (replicate (k - 1) [Request ?Q, Sleep secs])"
  define m where "m = nat max_attempts - k"
  from assms(1,2) have m: "nat max_attempts = (k - 1) + Suc m"
    unfolding m_def by linarith
  have retried: "\<forall>i<k - 1. \<exists>d. answer (net env (n_requests tr + i) ?Q) = Inr d \<and>
                   (\<forall>t. poll_body secs d t = (Continue, t @ [Sleep secs]))"
    using assms(3,6) by (rule in_progress_retried)
  from poll_loop_skip [OF assms(4,5) retried, where m = "Suc m" and prev = None]
  obtain prev' where run:
      "poll_loop env bid aid (Some key) (Some base) secs ((k - 1) + Suc m) None tr =
       poll_loop env bid aid (Some key) (Some base) secs (Suc m) prev' ?tr"
    by (elim exE conjE) (rule that)
  have "poll_loop env bid aid (Some key) (Some base) secs (Suc m) prev' ?tr =
        (Inr (Complete, PDict c), ?tr @ [Request ?Q])"
    using assms(4,5,7) poll_body_complete [OF assms(8,9)]
    by (intro poll_loop_step_return) simp_all
  with run m assms(1) show ?thesis
    by (simp add: poll_for_building_analysis_completion_def)
qed

text \<open>
  C3, amended, on the script \<^verbatim>\<open>IN_PROGRESS\<close>, \<^verbatim>\<open>IN_PROGRESS\<close>, \<^verbatim>\<open>COMPLETE\<close>: three
  requests, two sleeps.
\<close>

theorem poll_complete_at_attempt_witness:
  "poll_for_building_analysis_completion
     (scripted [Inr (ok_response in_progress), Inr (ok_response in_progress),
                Inr (ok_response completed)])
     (PInt 101) (PInt 7) (Some ''k'') (Some ''https://h/api'') 10 30 [] =
   (Inr (Complete, completed),
    [Request (status_request (scripted []) (PInt 101) (PInt 7) ''k'' ''https://h/api''), Sleep 10,
     Request (status_request (scripted []) (PInt 101) (PInt 7) ''k'' ''https://h/api''), Sleep 10,
     Request (status_request (scripted []) (PInt 101) (PInt 7) ''k'' ''https://h/api'')])"
proof -
  let ?E = "scripted [Inr (ok_response in_progress), Inr (ok_response in_progress),
                      Inr (ok_response completed)]"
  let ?Q = "status_request ?E (PInt 101) (PInt 7) ''k'' ''https://h/api''"
  let ?c = "[(''id'', PInt 7), (''generation_result'', PStr ''COMPLETE''),
             (''savings_target'', PStr ''NOMINAL'')]"
  have ans: "answer (net ?E i ?Q) = Inr in_progress" if "i < 2" for i
  proof -
    from that have "i = 0 \<or> i = Suc 0" by (rule less_2_cases)
    then show ?thesis by (auto simp: net_scripted answer_ok)
  qed
  have h1: "(1::nat) \<le> 3" and h2: "int 3 \<le> 30" and h3: "(0::int) \<le> 10"
    and h4: "''k'' \<noteq> []" and h5: "''https://h/api'' \<noteq> []" by simp_all
  have h6: "\<forall>i<3 - 1. \<exists>d. answer (net ?E (n_requests [] + i) ?Q) = Inr (PDict d) \<and>
             map_of d ''generation_result'' = Some (PStr ''IN_PROGRESS'')"
    using ans by (simp add: in_progress_def)
  have h7: "answer (net ?E (n_requests [] + (3 - 1)) ?Q) = Inr (PDict ?c)"
    by (simp add: net_scripted answer_ok completed_def)
  have h8: "map_of ?c ''generation_result'' = Some (PStr ''COMPLETE'')" by simp
  have h9: "''error'' \<notin> set (map fst ?c)" by simp
  have Q: "?Q = status_request (scripted []) (PInt 101) (PInt 7) ''k'' ''https://h/api''"
    by (rule status_request_scripted)
  from poll_complete_at_attempt [OF h1 h2 h3 h4 h5 h6 h7 h8 h9] Q show ?thesis
    by (simp add: completed_def numeral_2_eq_2)
qed

text \<open>
  C4, as stated: a successful query whose \<^verbatim>\<open>generation_result\<close> is absent ends the
  poll at once. A 2xx answer with the body \<^verbatim>\<open>{}\<close>, and a 2xx answer without a body
  (\<^verbatim>\<open>None\<close>), are false values: the test of line 149 sends them to the error branch,
  and the poll sleeps and queries again.
\<close>

theorem poll_empty_snapshot_retried:
  "poll_for_building_analysis_completion
     (scripted [Inr (ok_response (PDict [])), Inr no_content_response, Inr (ok_response completed)])
     (PInt 101) (PInt 7) (Some ''k'') (Some ''https://h/api'') 10 30 [] =
   (Inr (Complete, completed),
    [Request (status_request (scripted []) (PInt 101) (PInt 7) ''k'' ''https://h/api''), Sleep 10,
     Request (status_request (scripted []) (PInt 101) (PInt 7) ''k'' ''https://h/api''), Sleep 10,
     Request (status_request (scripted []) (PInt 101) (PInt 7) ''k'' ''https://h/api'')])"
  by (simp add: poll_for_building_analysis_completion_def eval_nat_numeral get_details_perform
      net_scripted answer_ok answer_no_content poll_body_falsy poll_body_complete
      completed_def status_request_scripted [of "[x, y, z]" for x y z])

text \<open>
  C4, amended: when query \<open>k \<le> max_attempts\<close> (the earlier ones having been retried)
  returns a non-empty dict without the key \<^verbatim>\<open>error\<close> whose \<^verbatim>\<open>generation_result\<close> is
  absent or is none of \<^verbatim>\<open>COMPLETE\<close>, \<^verbatim>\<open>FAILED\<close> and \<^verbatim>\<open>IN_PROGRESS\<close>, the poll
  returns that dict by the \<^verbatim>\<open>return\<close> of line 162, with no further request and no
  sleep after the \<open>k\<close>-th request.
\<close>

theorem poll_unexpected_returns_at_once:
  assumes "1 \<le> k" and "int k \<le> max_attempts" and "key \<noteq> []" and "base \<noteq> []"
    and "\<forall>i<k - 1. \<exists>d.
           answer (net env (n_requests tr + i) (status_request env bid aid key base)) = Inr d \<and>
           (\<forall>t. poll_body secs d t = (Continue, t @ [Sleep secs]))"
    and "answer (net env (n_requests tr + (k - 1)) (status_request env bid aid key base)) =
           Inr (PDict d)"
    and "d \<noteq> []" and "''error'' \<notin> set (map fst d)"
    and "map_of d ''generation_result'' \<notin>
           {Some (PStr ''COMPLETE''), Some (PStr ''FAILED''), Some (PStr ''IN_PROGRESS'')}"
  shows "poll_for_building_analysis_completion env bid aid (Some key) (Some base) secs
             max_attempts tr =
           (Inr (Unexpected, PDict d),
            tr @ concat (replicate (k - 1) [Request (status_request env bid aid key base), Sleep secs])
               @ [Request (status_request env bid aid key base)])"
proof -
  let ?Q = "status_request env bid aid key base"
  let ?tr = "tr @ concat (replicate (k - 1) [Request ?Q, Sleep secs])"
  define m where "m = nat max_attempts - k"
  from assms(1,2) have m: "nat max_attempts = (k - 1) + Suc m"
    unfolding m_def by linarith
  from poll_loop_skip [OF assms(3,4,5), where m = "Suc m" and prev = None]
  obtain prev' where run:
      "poll_loop env bid aid (Some key) (Some base) secs ((k - 1) + Suc m) None tr =
       poll_loop env bid aid (Some key) (Some base) secs (Suc m) prev' ?tr"
    by (elim exE conjE) (rule that)
  have "poll_loop env bid aid (Some key) (Some base) secs (Suc m) prev' ?tr =
        (Inr (Unexpected, PDict d), ?tr @ [Request ?Q])"
    using assms(3,4,6) poll_body_unexpected [OF assms(7,8,9)]
    by (intro poll_loop_step_return) simp_all
  with run m show ?thesis
    by (simp add: poll_for_building_analysis_completion_def)
qed

text \<open>
  C4, amended, on the script \<^verbatim>\<open>IN_PROGRESS\<close>, \<^verbatim>\<open>PAUSED\<close> with 30 attempts.
\<close>

theorem poll_unexpected_returns_at_once_witness:
  "poll_for_building_analysis_completion
     (scripted [Inr (ok_response in_progress), Inr (ok_response paused)])
     (PInt 101) (PInt 7) (Some ''k'') (Some ''https://h/api'') 10 30 [] =
   (Inr (Unexpected, paused),
    [Request (status_request (scripted []) (PInt 101) (PInt 7) ''k'' ''https://h/api''), Sleep 10,
     Request (status_request (scripted []) (PInt 101) (PInt 7) ''k'' ''https://h/api'')])"
proof -
  let ?E = "scripted [Inr (ok_response in_progress), Inr (ok_response paused)]"
  let ?Q = "status_request ?E (PInt 101) (PInt 7) ''k'' ''https://h/api''"
  let ?p = "[(''id'', PInt 7), (''generation_result'', PStr ''PAUSED'')]"
  have h1: "(1::nat) \<le> 2" and h2: "int 2 \<le> 30"
    and h3: "''k'' \<noteq> []" and h4: "''https://h/api'' \<noteq> []" by simp_all
  have cont: "\<forall>t. poll_body 10 in_progress t = (Continue, t @ [Sleep 10])"
    unfolding in_progress_def by (intro allI poll_body_in_progress) simp_all
  have h5: "\<forall>i<2 - 1. \<exists>d. answer (net ?E (n_requests [] + i) ?Q) = Inr d \<and>
             (\<forall>t. poll_body 10 d t = (Continue, t @ [Sleep 10]))"
    using cont by (simp add: net_scripted answer_ok)
  have h6: "answer (net ?E (n_requests [] + (2 - 1)) ?Q) = Inr (PDict ?p)"
    by (simp add: net_scripted answer_ok paused_def)
  have h7: "?p \<noteq> []" and h8: "''error'' \<notin> set (map fst ?p)"
    and h9: "map_of ?p ''generation_result'' \<notin>
           {Some (PStr ''COMPLETE''), Some (PStr ''FAILED''), Some (PStr ''IN_PROGRESS'')}"
    by simp_all
  have Q: "?Q = status_request (scripted []) (PInt 101) (PInt 7) ''k'' ''https://h/api''"
    by (rule status_request_scripted)
  from poll_unexpected_returns_at_once [OF h1 h2 h3 h4 h5 h6 h7 h8 h9] Q show ?thesis
    by (simp add: paused_def)
qed

text \<open>
  C5. When the answer to the submission is a dict whose \<^verbatim>\<open>generation_result\<close> is
  \<^verbatim>\<open>FAILED\<close>, the iteration for the building ends with that dict and the only request
  sent is the submission: no status query. With an \<^verbatim>\<open>id\<close> the iteration ends at line
  126, without one at line 118.
\<close>

theorem process_building_initial_failed:
  assumes "key \<noteq> []" and "base \<noteq> []"
    and "answer (net env (n_requests tr) (submit_request env bid st r2 key base)) = Inr (PDict d)"
    and "map_of d ''generation_result'' = Some (PStr ''FAILED'')"
  shows "process_building env bid st r2 (Some key) (Some base) tr =
           (Inr (if ''id'' \<in> set (map fst d) then InitialFailed (PDict d)
                 else TriggerFailed (PDict d)),
            tr @ [Request (submit_request env bid st r2 key base)]) \<and>
         n_requests (snd (process_building env bid st r2 (Some key) (Some base) tr)) =
           Suc (n_requests tr)"
proof -
  from assms(4) have ne: "d \<noteq> []" by auto
  have run: "run_building_analysis env bid st r2 (Some key) (Some base) tr =
      (Inr (PDict d), tr @ [Request (submit_request env bid st r2 key base)])"
    using assms(1,2,3) by (simp add: run_analysis_perform)
  show ?thesis
  proof (cases "''id'' \<in> set (map fst d)")
    case True
    then obtain v where "map_of d ''id'' = Some v"
      by (cases "map_of d ''id''") (auto simp: map_of_eq_None_iff)
    with True ne assms(4) show ?thesis
      by (simp add: process_building_def run)
  next
    case False
    with ne show ?thesis
      by (simp add: process_building_def run)
  qed
qed

text \<open>
  C5 on a submission that the service rejects.
\<close>

theorem process_building_initial_failed_witness:
  "process_building (scripted [Inr (ok_response rejected)]) (PInt 101) (PStr ''NOMINAL'')
     (PFloat 0.6) (Some ''k'') (Some ''https://h/api'') [] =
   (Inr (InitialFailed rejected),
    [Request (submit_request (scripted []) (PInt 101) (PStr ''NOMINAL'') (PFloat 0.6)
                ''k'' ''https://h/api'')])"
proof -
  let ?E = "scripted [Inr (ok_response rejected)]"
  let ?P = "submit_request ?E (PInt 101) (PStr ''NOMINAL'') (PFloat 0.6) ''k'' ''https://h/api''"
  let ?d = "[(''id'', PInt 7), (''generation_result'', PStr ''FAILED''),
             (''generation_message'', PStr ''not enough bills'')]"
  have h1: "''k'' \<noteq> []" and h2: "''https://h/api'' \<noteq> []" by simp_all
  have h3: "answer (net ?E (n_requests []) ?P) = Inr (PDict ?d)"
    by (simp add: net_scripted answer_ok rejected_def)
  have h4: "map_of ?d ''generation_result'' = Some (PStr ''FAILED'')" by simp
  have P: "?P = submit_request (scripted []) (PInt 101) (PStr ''NOMINAL'') (PFloat 0.6)
                  ''k'' ''https://h/api''"
    by (simp add: submit_request_def scripted_def)
  from process_building_initial_failed [OF h1 h2 h3 h4] P show ?thesis
    by (simp add: rejected_def)
qed

end
